theory Spec2Isabelle
  imports Main "HOL-Library.Sublist"
begin

section \<open>Strings and the string operations of the source\<close>

text \<open>
  A Python \<open>str\<close> is modelled as a \<open>string\<close> (a list of 8-bit characters). Within that
  range the characters matched by the regular expression class \<open>\d\<close> (the decimal digits)
  are exactly \<open>0\<close> to \<open>9\<close>.
\<close>

definition is_digit :: "char \<Rightarrow> bool" where
  "is_digit c = (c \<in> set ''0123456789'')"

text \<open>\<open>sub in s\<close>: the substring test, scanning the start positions left to right.\<close>

fun contains :: "string \<Rightarrow> string \<Rightarrow> bool" where
  "contains sub [] = (sub = [])"
| "contains sub (c # cs) = (prefix sub (c # cs) \<or> contains sub cs)"

text \<open>\<open>s.endswith(suf)\<close>.\<close>

definition endswith :: "string \<Rightarrow> string \<Rightarrow> bool" where
  "endswith s suf = prefix (rev suf) (rev s)"

text \<open>
  \<open>re.match(r'id(\d+)', s)\<close>: the pattern anchored at the start of \<open>s\<close>. The literal \<open>id\<close>
  must be followed by at least one digit; \<open>\d+\<close> is greedy and nothing follows it in the
  pattern, so group 1 is the longest run of digits. The result is group 1.
\<close>

fun match_id_digits :: "string \<Rightarrow> string option" where
  "match_id_digits (a # b # rest) =
     (if a = CHR ''i'' \<and> b = CHR ''d'' \<and> takeWhile is_digit rest \<noteq> []
      then Some (takeWhile is_digit rest) else None)"
| "match_id_digits _ = None"

text \<open>
  \<open>re.search(r'id(\d+)', s)\<close>: the leftmost start position at which the pattern matches;
  \<open>None\<close> when there is none. The result is \<open>match.group(1)\<close>.
\<close>

fun re_search_id_digits :: "string \<Rightarrow> string option" where
  "re_search_id_digits [] = None"
| "re_search_id_digits (c # cs) =
     (case match_id_digits (c # cs) of
        Some g \<Rightarrow> Some g
      | None \<Rightarrow> re_search_id_digits cs)"

section \<open>Console output\<close>

text \<open>
  Every \<open>print\<close> of the source is one constructor; the arguments are the values formatted
  into the message (\<open>WhisperError\<close> carries the caught exception \<open>e\<close>). The messages
  themselves start with pictographs outside ASCII, so the model names them instead of
  spelling them.
\<close>

datatype exn =
    IndexError                          \<comment> \<open>list index out of range\<close>
  | AttributeError string               \<comment> \<open>the object has no attribute of this name\<close>
  | FileNotFoundError string            \<comment> \<open>no file at this path\<close>
  | OSError string                      \<comment> \<open>a file could not be opened for writing, with the message\<close>
  | CollaboratorError string            \<comment> \<open>raised by a collaborator, with its message\<close>

datatype line =
    CouldNotExtractAppleId              \<comment> \<open>Could not extract Apple podcast ID.\<close>
  | UnsupportedUrlFormat                \<comment> \<open>Unsupported URL format.\<close>
  | TranscriptScraped string            \<comment> \<open>Transcript scraped and saved to <transcript_path>\<close>
  | DownloadingAudio string             \<comment> \<open>Downloading audio: <title>\<close>
  | SavedTo string                      \<comment> \<open>Saved to <audio_path>\<close>
  | WhisperSaved string                 \<comment> \<open>Whisper transcript saved to <transcript_path>\<close>
  | WhisperError string exn             \<comment> \<open>Whisper error for <title>: <e>\<close>
  | NoAudioFound string                 \<comment> \<open>No audio file found for: <title>\<close>
  | CouldNotResolve                     \<comment> \<open>Could not resolve to a valid RSS feed.\<close>

section \<open>The feed URL resolver\<close>

text \<open>
  \<open>resolve_feed_url(user_input)\<close>. The result is the pair of the lines it prints and the value
  it returns (\<open>None\<close> is Python's \<open>None\<close>). The function has no \<open>raise\<close> and every operation
  it applies to a string is total, so it has no exceptional result.
\<close>

definition resolve_feed_url :: "string \<Rightarrow> line list \<times> string option" where
  "resolve_feed_url user_input =
     (if contains ''podcasts.apple.com'' user_input then
        (case re_search_id_digits user_input of
           Some podcast_id \<Rightarrow>
             ([], Some (''https://podcasts.apple.com/rss/podcast/'' @ podcast_id @ ''.xml''))
         | None \<Rightarrow> ([CouldNotExtractAppleId], None))
      else if endswith user_input ''.xml'' \<or> contains ''rss'' user_input then
        ([], Some user_input)
      else ([UnsupportedUrlFormat], None))"

text \<open>
  The words of the specification, for stating the claims: at position \<open>k\<close> of \<open>s\<close> stands
  the literal \<open>id\<close> followed by a digit.
\<close>

definition id_digits_at :: "string \<Rightarrow> nat \<Rightarrow> bool" where
  "id_digits_at s k =
     (case drop k s of
        a # b # d # _ \<Rightarrow> a = CHR ''i'' \<and> b = CHR ''d'' \<and> is_digit d
      | _ \<Rightarrow> False)"

section \<open>Feed entries\<close>

text \<open>
  An entry as the feed parser hands it over, reduced to what the source reads. Every
  field may be missing (\<open>None\<close>). The source reads \<open>entry.title\<close>, \<open>entry.enclosures\<close>
  and \<open>enclosure.href\<close> as attributes, and reading an attribute that is not there
  raises \<open>AttributeError\<close>. The feed parser derives \<open>entry.enclosures\<close> from the links of
  the entry: an entry with some link but no enclosure has the empty list, an entry with
  no link at all has no such attribute. The keys \<open>content\<close>, \<open>summary\<close>, and \<open>value\<close>
  of a content item are read with \<open>.get(key, default)\<close>, which does not raise.
\<close>

record enclosure =
  href :: "string option"

record content_item =
  content_value :: "string option"       \<comment> \<open>the key \<open>value\<close>\<close>

record entry =
  title :: "string option"
  enclosures :: "enclosure list option"
  content :: "content_item list option"
  summary :: "string option"

section \<open>The world: files, console, collaborators\<close>

type_synonym path = string

text \<open>
  A file holds either text, written through the UTF-8 codec (\<open>Text t\<close> is the file whose
  decoded content is \<open>t\<close>), or raw bytes. The file system is a map from paths to contents.
\<close>

datatype file_content = Text string | Bytes string

text \<open>Calls to the external collaborators, in the order they are made.\<close>

datatype call =
    FeedParse string                    \<comment> \<open>\<open>feedparser.parse(rss_url)\<close>\<close>
  | HttpGet string                      \<comment> \<open>\<open>requests.get(audio_url)\<close>\<close>
  | WhisperCreate path                  \<comment> \<open>\<open>client.audio.transcriptions.create(file=...)\<close>\<close>

record world =
  files :: "path \<rightharpoonup> file_content"
  dirs :: "path set"
  console :: "line list"
  calls :: "call list"

text \<open>
  The collaborators and the operating system are parameters of the model. Each answers
  from the world at the time of the call and its argument, so the same argument may be
  answered differently later in a run. \<open>Inl m\<close> is an exception with message \<open>m\<close>.
  \<open>open_for_writing\<close> is the answer of the operating system to \<open>open(path, "w")\<close> and
  \<open>open(path, "wb")\<close>: \<open>None\<close> when the file is opened, \<open>Some m\<close> when \<open>open\<close> raises
  \<open>OSError\<close> with message \<open>m\<close> (a name that is too long or not allowed, a missing
  directory, no permission).
\<close>

record collaborators =
  feedparser_parse :: "world \<Rightarrow> string \<Rightarrow> entry list"          \<comment> \<open>\<open>feedparser.parse(url).entries\<close>\<close>
  requests_get :: "world \<Rightarrow> string \<Rightarrow> string + string"       \<comment> \<open>\<open>requests.get(url).content\<close>\<close>
  whisper_create :: "world \<Rightarrow> path \<Rightarrow> string + string"       \<comment> \<open>the speech-to-text call on the opened file\<close>
  open_for_writing :: "world \<Rightarrow> path \<Rightarrow> string option"

text \<open>
  How a piece of code ends: it returns a value, or an exception leaves it; either way the
  world is the one reached.
\<close>

datatype 'a run = Returned 'a world | Raised exn world

text \<open>
  What a caller can be handed by the downloader: Python's \<open>None\<close>, or a sequence of
  (episode, outcome) pairs. The outcomes are the vocabulary of the specification
  (\<open>TranscriptOutcome\<close>).
\<close>

datatype transcript_outcome =
    SavedFromFeed path
  | SavedFromAudio path
  | AudioMissing
  | TranscriptionFailed exn

datatype pyvalue = PyNone | PySeq "(entry \<times> transcript_outcome) list"

definition print_line :: "line \<Rightarrow> world \<Rightarrow> world" where
  "print_line l w = w\<lparr>console := console w @ [l]\<rparr>"

text \<open>
  \<open>with open(p, mode) as f: f.write(content)\<close>: if the file cannot be opened nothing
  changes and \<open>OSError\<close> is raised; once it is open the content replaces what the file held.
\<close>

definition write_file :: "collaborators \<Rightarrow> path \<Rightarrow> file_content \<Rightarrow> world \<Rightarrow> unit run" where
  "write_file c p f w =
     (case open_for_writing c w p of
        Some m \<Rightarrow> Raised (OSError m) w
      | None \<Rightarrow> Returned () (w\<lparr>files := (files w)(p \<mapsto> f)\<rparr>))"

definition record_call :: "call \<Rightarrow> world \<Rightarrow> world" where
  "record_call k w = w\<lparr>calls := calls w @ [k]\<rparr>"

text \<open>\<open>os.makedirs(d, exist_ok=True)\<close>.\<close>

definition makedirs :: "path \<Rightarrow> world \<Rightarrow> world" where
  "makedirs d w = w\<lparr>dirs := insert d (dirs w)\<rparr>"

text \<open>\<open>os.path.join(a, b)\<close> for two components (POSIX).\<close>

definition os_path_join :: "path \<Rightarrow> path \<Rightarrow> path" where
  "os_path_join a b =
     (if prefix ''/'' b then b
      else if a = [] \<or> endswith a ''/'' then a @ b
      else a @ ''/'' @ b)"

text \<open>\<open>s.replace(old, new)\<close> for one-character \<open>old\<close> and \<open>new\<close>.\<close>

definition replace :: "string \<Rightarrow> char \<Rightarrow> char \<Rightarrow> string" where
  "replace s old new = map (\<lambda>c. if c = old then new else c) s"

text \<open>\<open>xs[:limit]\<close>: a negative bound counts from the end.\<close>

definition slice_to :: "'a list \<Rightarrow> int \<Rightarrow> 'a list" where
  "slice_to xs limit =
     (if 0 \<le> limit then take (nat limit) xs
      else take (nat (int (length xs) + limit)) xs)"

section \<open>The episode downloader\<close>

definition downloads_dir :: path where
  "downloads_dir = ''downloads''"

text \<open>
  Line 48: \<open>title = entry.title.replace(" ", "_").replace("/", "-")\<close>. Reading the title of
  an entry that has none raises.
\<close>

definition sanitized_title :: "entry \<Rightarrow> exn + string" where
  "sanitized_title entry =
     (case title entry of
        None \<Rightarrow> Inl (AttributeError ''title'')
      | Some t \<Rightarrow> Inr (replace (replace t CHR '' '' CHR ''_'') CHR ''/'' CHR ''-''))"

text \<open>
  Line 49: \<open>audio_url = entry.enclosures[0].href if entry.enclosures else None\<close>. The
  condition reads \<open>entry.enclosures\<close> and raises if the entry has no such attribute; on
  a list that is not empty, \<open>.href\<close> raises if the first enclosure has none.
\<close>

definition audio_url :: "entry \<Rightarrow> exn + string option" where
  "audio_url entry =
     (case enclosures entry of
        None \<Rightarrow> Inl (AttributeError ''enclosures'')
      | Some [] \<Rightarrow> Inr None
      | Some (enc # _) \<Rightarrow>
          (case href enc of
             None \<Rightarrow> Inl (AttributeError ''href'')
           | Some h \<Rightarrow> Inr (Some h)))"

text \<open>
  Line 51:
  \<open>transcript_text = entry.get("content", [{}])[0].get("value", "") or entry.get("summary", "")\<close>.
  Indexing an empty content list raises; \<open>a or b\<close> is \<open>a\<close> unless \<open>a\<close> is the empty string.
\<close>

definition transcript_text :: "entry \<Rightarrow> exn + string" where
  "transcript_text entry =
     (case (case content entry of
              None \<Rightarrow> [\<lparr>content_value = None\<rparr>]
            | Some items \<Rightarrow> items) of
        [] \<Rightarrow> Inl IndexError
      | item # _ \<Rightarrow>
          (let v = (case content_value item of None \<Rightarrow> [] | Some v \<Rightarrow> v)
           in Inr (if v \<noteq> [] then v
                   else (case summary entry of None \<Rightarrow> [] | Some s \<Rightarrow> s))))"

text \<open>Line 52 and line 61, from the value of \<open>title\<close>.\<close>

definition transcript_path :: "string \<Rightarrow> path" where
  "transcript_path t = os_path_join downloads_dir (t @ ''_transcript.txt'')"

definition audio_path :: "string \<Rightarrow> path" where
  "audio_path t = os_path_join downloads_dir (t @ ''.mp3'')"

text \<open>
  \<open>transcribe_audio(file_path)\<close>: open the file for reading, hand it to the speech-to-text
  collaborator, return the text it answers. Opening a file that is not there raises.
\<close>

definition transcribe_audio :: "collaborators \<Rightarrow> path \<Rightarrow> world \<Rightarrow> string run" where
  "transcribe_audio c file_path w =
     (case files w file_path of
        None \<Rightarrow> Raised (FileNotFoundError file_path) w
      | Some _ \<Rightarrow>
          (case whisper_create c w file_path of
             Inl m \<Rightarrow> Raised (CollaboratorError m) (record_call (WhisperCreate file_path) w)
           | Inr transcript \<Rightarrow> Returned transcript (record_call (WhisperCreate file_path) w)))"

text \<open>
  Lines 61 to 66, for the values \<open>t\<close> of \<open>title\<close> and \<open>url\<close> of \<open>audio_url\<close>: announce the
  download, fetch the audio, save it, report the path. An exception of \<open>requests.get\<close> or
  of \<open>open\<close> is not caught here.
\<close>

definition download_audio :: "collaborators \<Rightarrow> string \<Rightarrow> string \<Rightarrow> world \<Rightarrow> unit run" where
  "download_audio c t url w =
     (let w1 = print_line (DownloadingAudio t) w in
      case requests_get c w1 url of
        Inl m \<Rightarrow> Raised (CollaboratorError m) (record_call (HttpGet url) w1)
      | Inr response_content \<Rightarrow>
          (case write_file c (audio_path t) (Bytes response_content)
                  (record_call (HttpGet url) w1) of
             Raised e w2 \<Rightarrow> Raised e w2
           | Returned _ w2 \<Rightarrow> Returned () (print_line (SavedTo (audio_path t)) w2)))"

text \<open>
  Lines 68 to 74, for the value \<open>t\<close> of \<open>title\<close>: the \<open>try\<close> block. Whatever exception
  leaves \<open>transcribe_audio\<close> or the writing of the transcript is caught and reported; the
  transcript is written only after the call has returned.
\<close>

definition transcribe_and_save :: "collaborators \<Rightarrow> string \<Rightarrow> world \<Rightarrow> unit run" where
  "transcribe_and_save c t w =
     (case transcribe_audio c (audio_path t) w of
        Returned whisper_transcript w' \<Rightarrow>
          (case write_file c (transcript_path t) (Text whisper_transcript) w' of
             Returned _ w'' \<Rightarrow> Returned () (print_line (WhisperSaved (transcript_path t)) w'')
           | Raised e w'' \<Rightarrow> Returned () (print_line (WhisperError t e) w''))
      | Raised e w' \<Rightarrow> Returned () (print_line (WhisperError t e) w'))"

text \<open>
  Lines 48 to 76: the body of the loop for one entry. Lines 48, 49 and 51 are evaluated in
  this order, each before anything is tested, and an exception of any of them leaves the
  body. \<open>if transcript_text\<close> and \<open>if audio_url\<close> test for a value that is neither \<open>None\<close>
  nor the empty string.
\<close>

definition process_entry :: "collaborators \<Rightarrow> entry \<Rightarrow> world \<Rightarrow> unit run" where
  "process_entry c entry w =
     (case sanitized_title entry of
        Inl e \<Rightarrow> Raised e w
      | Inr t \<Rightarrow>
     (case audio_url entry of
        Inl e \<Rightarrow> Raised e w
      | Inr audio \<Rightarrow>
     (case transcript_text entry of
        Inl e \<Rightarrow> Raised e w
      | Inr embedded \<Rightarrow>
          if embedded \<noteq> [] then
            (case write_file c (transcript_path t) (Text embedded) w of
               Raised e w' \<Rightarrow> Raised e w'
             | Returned _ w' \<Rightarrow> Returned () (print_line (TranscriptScraped (transcript_path t)) w'))
          else
            (case audio of
               None \<Rightarrow> Returned () (print_line (NoAudioFound t) w)
             | Some url \<Rightarrow>
                 if url = [] then Returned () (print_line (NoAudioFound t) w)
                 else
                   (case download_audio c t url w of
                      Raised e w' \<Rightarrow> Raised e w'
                    | Returned _ w' \<Rightarrow> transcribe_and_save c t w')))))"

text \<open>Line 47: \<open>for entry in episodes\<close>. An exception that leaves the body ends the loop.\<close>

fun for_entries :: "collaborators \<Rightarrow> entry list \<Rightarrow> world \<Rightarrow> unit run" where
  "for_entries c [] w = Returned () w"
| "for_entries c (entry # rest) w =
     (case process_entry c entry w of
        Raised e w' \<Rightarrow> Raised e w'
      | Returned _ w' \<Rightarrow> for_entries c rest w')"

text \<open>
  \<open>download_episodes_from_rss(rss_url, limit=3)\<close>. The second argument is \<open>None\<close> when the
  caller leaves \<open>limit\<close> out. The body has no \<open>return\<close>: a run that ends normally hands the
  caller \<open>None\<close>.
\<close>

definition download_episodes_from_rss ::
    "collaborators \<Rightarrow> string \<Rightarrow> int option \<Rightarrow> world \<Rightarrow> pyvalue run" where
  "download_episodes_from_rss c rss_url limit_arg w =
     (let limit = (case limit_arg of None \<Rightarrow> 3 | Some l \<Rightarrow> l);
          feed_entries = feedparser_parse c w rss_url;
          episodes = slice_to feed_entries limit;
          w1 = makedirs downloads_dir (record_call (FeedParse rss_url) w)
      in case for_entries c episodes w1 of
           Raised e w' \<Rightarrow> Raised e w'
         | Returned _ w' \<Rightarrow> Returned PyNone w')"

text \<open>
  The main block of the module: resolve what the user typed, then download with the
  default limit, or report that nothing could be resolved.
\<close>

definition main_block :: "collaborators \<Rightarrow> string \<Rightarrow> world \<Rightarrow> pyvalue run" where
  "main_block c user_input w =
     (let (printed, rss_feed) = resolve_feed_url user_input;
          w1 = w\<lparr>console := console w @ printed\<rparr>
      in case rss_feed of
           None \<Rightarrow> Returned PyNone (print_line CouldNotResolve w1)
         | Some url \<Rightarrow>
             if url = [] then Returned PyNone (print_line CouldNotResolve w1)
             else download_episodes_from_rss c url None w1)"

section \<open>The vocabulary of the specification\<close>

text \<open>
  The embedded transcript in the words of the specification: the content value if it is
  not empty, otherwise the summary if it is not empty, otherwise absent.
\<close>

definition spec_content_value :: "entry \<Rightarrow> string option" where
  "spec_content_value e =
     (case content e of Some (item # _) \<Rightarrow> content_value item | _ \<Rightarrow> None)"

definition spec_embedded_transcript :: "entry \<Rightarrow> string option" where
  "spec_embedded_transcript e =
     (if spec_content_value e \<noteq> None \<and> spec_content_value e \<noteq> Some []
      then spec_content_value e
      else if summary e \<noteq> None \<and> summary e \<noteq> Some [] then summary e
      else None)"

text \<open>
  The outcome a console line reports, in the vocabulary of the specification. The lines
  that announce a download or a saved audio file report no outcome.
\<close>

fun outcome_of_line :: "line \<Rightarrow> transcript_outcome option" where
  "outcome_of_line (TranscriptScraped p) = Some (SavedFromFeed p)"
| "outcome_of_line (WhisperSaved p) = Some (SavedFromAudio p)"
| "outcome_of_line (WhisperError t e) = Some (TranscriptionFailed e)"
| "outcome_of_line (NoAudioFound t) = Some AudioMissing"
| "outcome_of_line _ = None"

text \<open>The outcome lines among the lines printed, in order.\<close>

definition outcome_lines :: "line list \<Rightarrow> line list" where
  "outcome_lines ls = filter (\<lambda>l. outcome_of_line l \<noteq> None) ls"

text \<open>Line \<open>l\<close> reports an outcome of entry \<open>e\<close>, whose title can be read.\<close>

definition reports_on :: "entry \<Rightarrow> line \<Rightarrow> bool" where
  "reports_on e l =
     (case sanitized_title e of
        Inl _ \<Rightarrow> False
      | Inr t \<Rightarrow>
          l = TranscriptScraped (transcript_path t) \<or> l = WhisperSaved (transcript_path t)
          \<or> l = NoAudioFound t
          \<or> (case l of WhisperError t' x \<Rightarrow> t' = t | _ \<Rightarrow> False))"


text \<open>The world a run ends in, and the value it returns if it returns.\<close>

fun world_of :: "'a run \<Rightarrow> world" where
  "world_of (Returned _ w) = w"
| "world_of (Raised _ w) = w"

fun returned_value :: "'a run \<Rightarrow> 'a option" where
  "returned_value (Returned v _) = Some v"
| "returned_value (Raised _ _) = None"

fun raised :: "'a run \<Rightarrow> exn option" where
  "raised (Returned _ _) = None"
| "raised (Raised e _) = Some e"

section \<open>Example inputs\<close>

text \<open>
  A feed of four episodes: one with audio only, one with a link but neither text nor
  audio, one with an empty content value and a summary, and the second one again. The
  audio downloads; the speech-to-text collaborator fails on every call; the operating
  system opens every file whose name has at most 255 characters after the directory.
\<close>

definition empty_world :: world where
  "empty_world = \<lparr>files = Map.empty, dirs = {}, console = [], calls = []\<rparr>"

definition episode_with_audio :: entry where
  "episode_with_audio =
     \<lparr>title = Some ''Ep 2'', enclosures = Some [\<lparr>href = Some ''http://x/b.mp3''\<rparr>],
      content = None, summary = None\<rparr>"

definition episode_bare :: entry where
  "episode_bare =
     \<lparr>title = Some ''Ep 3'', enclosures = Some [], content = None, summary = Some []\<rparr>"

definition episode_with_text :: entry where
  "episode_with_text =
     \<lparr>title = Some ''Ep 1/2'', enclosures = Some [\<lparr>href = Some ''http://x/a.mp3''\<rparr>],
      content = Some [\<lparr>content_value = Some []\<rparr>], summary = Some ''hello''\<rparr>"

definition failing_whisper :: collaborators where
  "failing_whisper =
     \<lparr>feedparser_parse =
        (\<lambda>w url. [episode_with_audio, episode_bare, episode_with_text, episode_bare]),
      requests_get = (\<lambda>w url. Inr ''mp3-bytes''),
      whisper_create = (\<lambda>w p. Inl ''quota exceeded''),
      open_for_writing =
        (\<lambda>w p. if 265 < length p then Some ''File name too long'' else None)\<rparr>"

text \<open>
  The world after the episode with neither text nor audio has been processed, and the
  world after the audio of the first episode has been downloaded into a world \<open>w\<close>.
\<close>

definition bare_done :: world where
  "bare_done = world_of (process_entry failing_whisper episode_bare empty_world)"

definition audio_downloaded :: "world \<Rightarrow> world" where
  "audio_downloaded w =
     world_of (download_audio failing_whisper ''Ep_2'' ''http://x/b.mp3'' w)"

text \<open>
  Feed items the parser hands over with attributes missing. A text-only item: a title and
  a description, no link and no enclosure. An item that is only a title. An item with an
  embedded transcript and a title of 250 characters.
\<close>

definition text_only_item :: entry where
  "text_only_item =
     \<lparr>title = Some ''Notes'', enclosures = None, content = None, summary = Some ''hello''\<rparr>"

definition title_only_item :: entry where
  "title_only_item =
     \<lparr>title = Some ''Trailer'', enclosures = None, content = None, summary = None\<rparr>"

definition long_title_item :: entry where
  "long_title_item =
     \<lparr>title = Some (replicate 250 CHR ''a''), enclosures = Some [],
      content = None, summary = Some ''hello''\<rparr>"

section \<open>Facts about the string operations\<close>

lemma contains_iff_sublist: "contains sub s \<longleftrightarrow> sublist sub s"
  by (induction s) (auto simp: sublist_Cons_right)

lemma endswith_iff_suffix: "endswith s suf \<longleftrightarrow> suffix suf s"
  by (simp add: endswith_def suffix_to_prefix)

lemma match_id_digits_Some:
  "match_id_digits s = Some g \<longleftrightarrow> id_digits_at s 0 \<and> g = takeWhile is_digit (drop 2 s)"
  by (cases s rule: match_id_digits.cases)
     (auto simp: id_digits_at_def takeWhile_eq_Nil_iff split: list.splits)

lemma match_id_digits_None: "match_id_digits s = None \<longleftrightarrow> \<not> id_digits_at s 0"
  by (cases s rule: match_id_digits.cases)
     (auto simp: id_digits_at_def takeWhile_eq_Nil_iff split: list.splits)

lemma id_digits_at_Suc: "id_digits_at (c # cs) (Suc k) = id_digits_at cs k"
  by (simp add: id_digits_at_def)

lemma id_digits_at_Nil: "\<not> id_digits_at [] k"
  by (simp add: id_digits_at_def)

lemma re_search_None: "re_search_id_digits s = None \<longleftrightarrow> (\<forall>k. \<not> id_digits_at s k)"
proof (induction s)
  case Nil
  show ?case by (simp add: id_digits_at_Nil)
next
  case (Cons c cs)
  show ?case
  proof (cases "match_id_digits (c # cs)")
    case None
    then have no0: "\<not> id_digits_at (c # cs) 0" by (simp add: match_id_digits_None)
    have "(\<forall>k. \<not> id_digits_at (c # cs) k) \<longleftrightarrow> (\<forall>k. \<not> id_digits_at cs k)"
    proof
      assume a: "\<forall>k. \<not> id_digits_at (c # cs) k"
      show "\<forall>k. \<not> id_digits_at cs k"
      proof
        fix k from a have "\<not> id_digits_at (c # cs) (Suc k)" by blast
        then show "\<not> id_digits_at cs k" by (simp add: id_digits_at_Suc)
      qed
    next
      assume a: "\<forall>k. \<not> id_digits_at cs k"
      show "\<forall>k. \<not> id_digits_at (c # cs) k"
      proof
        fix k show "\<not> id_digits_at (c # cs) k"
          using a no0 by (cases k) (simp_all add: id_digits_at_Suc)
      qed
    qed
    with None Cons.IH show ?thesis by simp
  next
    case (Some g)
    then have "id_digits_at (c # cs) 0" by (simp add: match_id_digits_Some)
    with Some show ?thesis by auto
  qed
qed

lemma re_search_first:
  assumes "id_digits_at s k" and "\<forall>j<k. \<not> id_digits_at s j"
  shows "re_search_id_digits s = Some (takeWhile is_digit (drop (k + 2) s))"
  using assms
proof (induction s arbitrary: k)
  case Nil
  then show ?case by (simp add: id_digits_at_Nil)
next
  case (Cons c cs)
  show ?case
  proof (cases k)
    case 0
    with Cons.prems(1) have "match_id_digits (c # cs) = Some (takeWhile is_digit (drop 2 (c # cs)))"
      by (simp add: match_id_digits_Some)
    with 0 show ?thesis by simp
  next
    case (Suc k')
    with Cons.prems(2) have "\<not> id_digits_at (c # cs) 0" by blast
    then have none: "match_id_digits (c # cs) = None" by (simp add: match_id_digits_None)
    from Cons.prems(1) Suc have at: "id_digits_at cs k'" by (simp add: id_digits_at_Suc)
    have "\<forall>j<k'. \<not> id_digits_at cs j"
    proof (intro allI impI)
      fix j assume "j < k'"
      with Suc have "Suc j < k" by simp
      with Cons.prems(2) have "\<not> id_digits_at (c # cs) (Suc j)" by blast
      then show "\<not> id_digits_at cs j" by (simp add: id_digits_at_Suc)
    qed
    with at have "re_search_id_digits cs = Some (takeWhile is_digit (drop (k' + 2) cs))"
      by (rule Cons.IH)
    with none Suc show ?thesis by simp
  qed
qed

lemma id_digits_at_split:
  assumes "id_digits_at s k"
  shows "s = take k s @ ''id'' @ takeWhile is_digit (drop (k + 2) s) @ dropWhile is_digit (drop (k + 2) s)
         \<and> takeWhile is_digit (drop (k + 2) s) \<noteq> []"
proof -
  from assms obtain d r where d: "drop k s = CHR ''i'' # CHR ''d'' # d # r" and dig: "is_digit d"
    by (auto simp: id_digits_at_def split: list.splits)
  have "drop (k + 2) s = drop 2 (drop k s)" by (simp add: add.commute)
  with d have d2: "drop (k + 2) s = d # r" by simp
  have "s = take k s @ drop k s" by simp
  then have "s = take k s @ ''id'' @ drop (k + 2) s" using d d2 by simp
  moreover have "takeWhile is_digit (drop (k + 2) s) \<noteq> []" using d2 dig by simp
  ultimately show ?thesis by simp
qed

lemma re_search_Some_i: "re_search_id_digits s = Some g \<Longrightarrow> CHR ''i'' \<in> set s"
proof (induction s)
  case Nil then show ?case by simp
next
  case (Cons c cs)
  show ?case
  proof (cases "match_id_digits (c # cs)")
    case None
    with Cons show ?thesis by simp
  next
    case (Some g')
    then have "id_digits_at (c # cs) 0" by (simp add: match_id_digits_Some)
    then have "c = CHR ''i''" by (auto simp: id_digits_at_def split: list.splits)
    then show ?thesis by simp
  qed
qed

lemma re_search_Some_digits: "re_search_id_digits s = Some g \<Longrightarrow> \<forall>c\<in>set g. is_digit c"
proof (induction s)
  case Nil then show ?case by simp
next
  case (Cons c cs)
  show ?case
  proof (cases "match_id_digits (c # cs)")
    case None
    with Cons show ?thesis by simp
  next
    case (Some g')
    with Cons.prems have "g = g'" by simp
    with Some have "g = takeWhile is_digit (drop 2 (c # cs))" by (simp add: match_id_digits_Some)
    then show ?thesis by (auto dest: set_takeWhileD)
  qed
qed

lemma apple_not_fixed:
  assumes "contains ''podcasts.apple.com'' s"
  shows "snd (resolve_feed_url s) \<noteq> Some s"
proof (cases "re_search_id_digits s")
  case None
  with assms show ?thesis by (simp add: resolve_feed_url_def)
next
  case (Some g)
  show ?thesis
  proof
    assume "snd (resolve_feed_url s) = Some s"
    with assms Some have s: "s = ''https://podcasts.apple.com/rss/podcast/'' @ g @ ''.xml''"
      by (simp add: resolve_feed_url_def)
    from Some have "CHR ''i'' \<in> set s" by (rule re_search_Some_i)
    then have "CHR ''i'' \<in> set g" by (subst (asm) s) simp
    with re_search_Some_digits [OF Some] have "is_digit CHR ''i''" by blast
    then show False by (simp add: is_digit_def)
  qed
qed

section \<open>Facts about the downloader\<close>

lemma replace_length: "length (replace s a b) = length s"
  by (simp add: replace_def)

lemma replace_nth: "i < length s \<Longrightarrow> replace s a b ! i = (if s ! i = a then b else s ! i)"
  by (simp add: replace_def)

lemma sanitized_title_Inr:
  assumes "sanitized_title e = Inr t"
  shows "\<exists>raw. title e = Some raw \<and> length t = length raw
           \<and> (\<forall>i<length raw. t ! i =
                 (if raw ! i = CHR '' '' then CHR ''_''
                  else if raw ! i = CHR ''/'' then CHR ''-'' else raw ! i))
           \<and> CHR ''/'' \<notin> set t"
proof (cases "title e")
  case None
  with assms show ?thesis by (simp add: sanitized_title_def)
next
  case (Some raw)
  with assms have t: "t = replace (replace raw CHR '' '' CHR ''_'') CHR ''/'' CHR ''-''"
    by (simp add: sanitized_title_def)
  then have "length t = length raw" by (simp add: replace_length)
  moreover from t have "\<forall>i<length raw. t ! i =
                 (if raw ! i = CHR '' '' then CHR ''_''
                  else if raw ! i = CHR ''/'' then CHR ''-'' else raw ! i)"
    by (simp add: replace_length replace_nth)
  moreover from t have "CHR ''/'' \<notin> set t" by (auto simp: replace_def)
  ultimately show ?thesis using Some by blast
qed

lemma join_downloads:
  assumes "CHR ''/'' \<notin> set t" and "suf \<noteq> []" and "hd suf \<noteq> CHR ''/''"
  shows "os_path_join downloads_dir (t @ suf) = ''downloads/'' @ t @ suf"
proof -
  have "\<not> prefix ''/'' (t @ suf)"
    using assms by (cases t; cases suf) auto
  then show ?thesis
    by (simp add: os_path_join_def downloads_dir_def endswith_def)
qed

lemma transcript_path_eq:
  "CHR ''/'' \<notin> set t \<Longrightarrow> transcript_path t = ''downloads/'' @ t @ ''_transcript.txt''"
  unfolding transcript_path_def by (rule join_downloads) simp_all

lemma audio_path_eq: "CHR ''/'' \<notin> set t \<Longrightarrow> audio_path t = ''downloads/'' @ t @ ''.mp3''"
  unfolding audio_path_def by (rule join_downloads) simp_all

lemma last_os_path_join: "b \<noteq> [] \<Longrightarrow> last (os_path_join a b) = last b"
  by (simp add: os_path_join_def)

lemma audio_path_neq_transcript_path: "audio_path t \<noteq> transcript_path t"
proof
  assume "audio_path t = transcript_path t"
  then have "last (audio_path t) = last (transcript_path t)" by simp
  then show False by (simp add: audio_path_def transcript_path_def last_os_path_join)
qed

lemma for_entries_append:
  "for_entries c (xs @ ys) w =
     (case for_entries c xs w of
        Raised e w' \<Rightarrow> Raised e w'
      | Returned _ w' \<Rightarrow> for_entries c ys w')"
  by (induction xs arbitrary: w) (auto split: run.splits)

lemma write_file_Returned:
  "write_file c p f w = Returned x w' \<Longrightarrow>
     open_for_writing c w p = None \<and> w' = w\<lparr>files := (files w)(p \<mapsto> f)\<rparr>"
  by (auto simp: write_file_def split: option.splits)

lemma write_file_Raised: "write_file c p f w = Raised e w' \<Longrightarrow> w' = w"
  by (auto simp: write_file_def split: option.splits)

lemma download_audio_Returned:
  assumes "download_audio c t u w = Returned x w1"
  shows "\<exists>audio. requests_get c (print_line (DownloadingAudio t) w) u = Inr audio
           \<and> files w1 = (files w)(audio_path t \<mapsto> Bytes audio)
           \<and> console w1 = console w @ [DownloadingAudio t, SavedTo (audio_path t)]
           \<and> calls w1 = calls w @ [HttpGet u]
           \<and> dirs w1 = dirs w"
  using assms
  by (auto simp: download_audio_def Let_def print_line_def write_file_def record_call_def
      split: sum.splits option.splits)

lemma transcribe_audio_world:
  assumes "transcribe_audio c p w = r"
  shows "(case r of Returned _ w' \<Rightarrow> files w' = files w \<and> console w' = console w \<and> dirs w' = dirs w
         | Raised _ w' \<Rightarrow> files w' = files w \<and> console w' = console w \<and> dirs w' = dirs w)"
  using assms
  by (auto simp: transcribe_audio_def record_call_def split: option.splits sum.splits)

lemma transcribe_audio_fails:
  assumes "files w p \<noteq> None" and "whisper_create c w p = Inl m"
  shows "transcribe_audio c p w = Raised (CollaboratorError m) (record_call (WhisperCreate p) w)"
  using assms by (auto simp: transcribe_audio_def)

lemma outcome_lines_append: "outcome_lines (xs @ ys) = outcome_lines xs @ outcome_lines ys"
  by (simp add: outcome_lines_def)

lemma transcribe_and_save_console:
  assumes "transcribe_and_save c t w = Returned x w'"
  shows "console w' = console w @ [WhisperSaved (transcript_path t)]
       \<or> (\<exists>ex. console w' = console w @ [WhisperError t ex])"
proof (cases "transcribe_audio c (audio_path t) w")
  case (Raised ex w2)
  with transcribe_audio_world [OF Raised] assms
  have "console w' = console w @ [WhisperError t ex]"
    by (auto simp: transcribe_and_save_def print_line_def)
  then show ?thesis by blast
next
  case (Returned tr w2)
  from transcribe_audio_world [OF Returned] have c2: "console w2 = console w" by simp
  show ?thesis
  proof (cases "write_file c (transcript_path t) (Text tr) w2")
    case (Returned y w3)
    from write_file_Returned [OF Returned] have "console w3 = console w2" by simp
    with Returned \<open>transcribe_audio c (audio_path t) w = Returned tr w2\<close> assms c2
    have "console w' = console w @ [WhisperSaved (transcript_path t)]"
      by (auto simp: transcribe_and_save_def print_line_def)
    then show ?thesis by blast
  next
    case (Raised ex w3)
    from write_file_Raised [OF Raised] have "console w3 = console w2" by simp
    with Raised \<open>transcribe_audio c (audio_path t) w = Returned tr w2\<close> assms c2
    have "console w' = console w @ [WhisperError t ex]"
      by (auto simp: transcribe_and_save_def print_line_def)
    then show ?thesis by blast
  qed
qed

lemma process_entry_reports:
  assumes "process_entry c e w = Returned x w'"
  shows "\<exists>printed l. console w' = console w @ printed \<and> outcome_lines printed = [l] \<and> reports_on e l"
proof -
  from assms obtain t audio tx where
    t: "sanitized_title e = Inr t" and a: "audio_url e = Inr audio" and x: "transcript_text e = Inr tx"
    by (auto simp: process_entry_def split: sum.splits)
  show ?thesis
  proof (cases "tx = []")
    case False
    with t a x assms obtain y w1 where
      wr: "write_file c (transcript_path t) (Text tx) w = Returned y w1"
      and w': "w' = print_line (TranscriptScraped (transcript_path t)) w1"
      by (auto simp: process_entry_def split: run.splits)
    from write_file_Returned [OF wr] w'
    have "console w' = console w @ [TranscriptScraped (transcript_path t)]"
      by (simp add: print_line_def)
    with t show ?thesis by (auto simp: outcome_lines_def reports_on_def)
  next
    case True
    show ?thesis
    proof (cases "audio = None \<or> audio = Some []")
      case True
      with t a x \<open>tx = []\<close> assms have "console w' = console w @ [NoAudioFound t]"
        by (auto simp: process_entry_def print_line_def)
      with t show ?thesis by (auto simp: outcome_lines_def reports_on_def)
    next
      case False
      then obtain u where u: "audio = Some u" "u \<noteq> []" by auto
      show ?thesis
      proof (cases "download_audio c t u w")
        case (Raised ex b)
        with t a x \<open>tx = []\<close> u assms show ?thesis by (simp add: process_entry_def)
      next
        case (Returned y w1)
        with t a x \<open>tx = []\<close> u assms have ts: "transcribe_and_save c t w1 = Returned x w'"
          by (simp add: process_entry_def)
        from download_audio_Returned [OF Returned]
        have c1: "console w1 = console w @ [DownloadingAudio t, SavedTo (audio_path t)]"
          by blast
        from transcribe_and_save_console [OF ts] show ?thesis
        proof
          assume "console w' = console w1 @ [WhisperSaved (transcript_path t)]"
          with c1 have "console w' = console w @ [DownloadingAudio t,
              SavedTo (audio_path t), WhisperSaved (transcript_path t)]" by simp
          with t show ?thesis by (auto simp: outcome_lines_def reports_on_def)
        next
          assume "\<exists>ex. console w' = console w1 @ [WhisperError t ex]"
          then obtain ex where "console w' = console w1 @ [WhisperError t ex]" ..
          with c1 have "console w' = console w @ [DownloadingAudio t,
              SavedTo (audio_path t), WhisperError t ex]" by simp
          with t show ?thesis by (auto simp: outcome_lines_def reports_on_def)
        qed
      qed
    qed
  qed
qed

lemma for_entries_reports:
  assumes "for_entries c es w = Returned x w'"
  shows "\<exists>printed. console w' = console w @ printed \<and> list_all2 reports_on es (outcome_lines printed)"
  using assms
proof (induction es arbitrary: w)
  case Nil
  then show ?case by (simp add: outcome_lines_def)
next
  case (Cons e es)
  from Cons.prems obtain y w1 where p: "process_entry c e w = Returned y w1"
    and r: "for_entries c es w1 = Returned x w'"
    by (auto split: run.splits)
  from process_entry_reports [OF p] obtain pr1 l where
    a: "console w1 = console w @ pr1" "outcome_lines pr1 = [l]" "reports_on e l" by blast
  from Cons.IH [OF r] obtain pr2 where
    b: "console w' = console w1 @ pr2" "list_all2 reports_on es (outcome_lines pr2)" by blast
  from a b have "console w' = console w @ (pr1 @ pr2)" by simp
  moreover from a b have "list_all2 reports_on (e # es) (outcome_lines (pr1 @ pr2))"
    by (simp add: outcome_lines_append)
  ultimately show ?case by blast
qed

lemma failed_transcription_run:
  assumes "sanitized_title e = Inr t"
      and "transcript_text e = Inr []" and "audio_url e = Inr (Some u)" and "u \<noteq> []"
      and "download_audio c t u w = Returned () w1"
      and "whisper_create c w1 (audio_path t) = Inl m"
  shows "process_entry c e w =
           Returned () (print_line (WhisperError t (CollaboratorError m))
                          (record_call (WhisperCreate (audio_path t)) w1))"
proof -
  from download_audio_Returned [OF assms(5)] have "files w1 (audio_path t) \<noteq> None" by auto
  then have "transcribe_audio c (audio_path t) w1 =
      Raised (CollaboratorError m) (record_call (WhisperCreate (audio_path t)) w1)"
    using assms(6) by (rule transcribe_audio_fails)
  then show ?thesis using assms(1-5) by (simp add: process_entry_def transcribe_and_save_def)
qed


text \<open>Indexing an empty content list raises before anything is written or printed.\<close>

lemma transcript_text_empty_content: "content e = Some [] \<Longrightarrow> transcript_text e = Inl IndexError"
  by (simp add: transcript_text_def)

lemma run_eq: "returned_value r = Some v \<Longrightarrow> r = Returned v (world_of r)"
  by (cases r) simp_all

text \<open>
  Where the attributes of lines 48 and 49 can be read and the transcript file can be
  opened, an episode with an embedded transcript \<open>tx\<close> is handled without any call to a
  collaborator, and \<open>tx\<close> is the content of its transcript file.
\<close>

lemma embedded_transcript_saved_if_readable:
  assumes "sanitized_title e = Inr t" and "audio_url e = Inr a"
      and "transcript_text e = Inr tx" and "tx \<noteq> []"
      and "open_for_writing c w (transcript_path t) = None"
  shows "\<exists>w'. process_entry c e w = Returned () w'
           \<and> calls w' = calls w
           \<and> files w' = (files w)(transcript_path t \<mapsto> Text tx)
           \<and> transcript_path t = ''downloads/'' @ t @ ''_transcript.txt''"
proof -
  from sanitized_title_Inr [OF assms(1)] have "CHR ''/'' \<notin> set t" by blast
  then have "transcript_path t = ''downloads/'' @ t @ ''_transcript.txt''"
    by (rule transcript_path_eq)
  with assms show ?thesis
    by (simp add: process_entry_def write_file_def print_line_def)
qed

text \<open>
  Where the attributes of lines 48 and 49 can be read, an episode with neither an embedded
  transcript nor an audio URL changes nothing but the console.
\<close>

lemma audio_missing_if_readable:
  assumes "sanitized_title e = Inr t" and "transcript_text e = Inr []"
      and "audio_url e = Inr None \<or> audio_url e = Inr (Some [])"
  shows "\<exists>w'. process_entry c e w = Returned () w'
           \<and> files w' = files w \<and> dirs w' = dirs w \<and> calls w' = calls w
           \<and> console w' = console w @ [NoAudioFound t]"
  using assms by (auto simp: process_entry_def print_line_def)

text \<open>An episode whose title or enclosures cannot be read leaves the world as it was.\<close>

lemma unreadable_entry_raises:
  assumes "title e = None \<or> enclosures e = None"
  shows "\<exists>x. process_entry c e w = Raised x w"
  using assms by (auto simp: process_entry_def sanitized_title_def audio_url_def split: option.splits)

section \<open>Facts about the example inputs\<close>

lemmas run_defs =
  download_episodes_from_rss_def slice_to_def process_entry_def transcript_text_def audio_url_def
  download_audio_def transcribe_and_save_def transcribe_audio_def print_line_def write_file_def
  record_call_def makedirs_def sanitized_title_def replace_def audio_path_def
  transcript_path_def os_path_join_def downloads_dir_def endswith_def Let_def

lemmas example_defs =
  failing_whisper_def episode_with_audio_def episode_bare_def episode_with_text_def empty_world_def

lemma ex_title_audio: "sanitized_title episode_with_audio = Inr ''Ep_2''"
  by (simp add: sanitized_title_def replace_def episode_with_audio_def)

lemma ex_text_audio: "transcript_text episode_with_audio = Inr []"
  by (simp add: transcript_text_def episode_with_audio_def)

lemma ex_audio_url: "audio_url episode_with_audio = Inr (Some ''http://x/b.mp3'')"
  by (simp add: audio_url_def episode_with_audio_def)

lemma ex_download:
  "download_audio failing_whisper ''Ep_2'' ''http://x/b.mp3'' w = Returned () (audio_downloaded w)"
  by (simp add: audio_downloaded_def download_audio_def write_file_def failing_whisper_def
      audio_path_def os_path_join_def downloads_dir_def endswith_def Let_def)

lemma ex_whisper: "whisper_create failing_whisper w p = Inl ''quota exceeded''"
  by (simp add: failing_whisper_def)

lemma ex_bare: "for_entries failing_whisper [episode_bare] empty_world = Returned () bare_done"
  by (simp add: bare_done_def process_entry_def transcript_text_def audio_url_def
      sanitized_title_def episode_bare_def)

section \<open>Episodes with an embedded transcript\<close>

text \<open>
  Claim C1: for every episode whose embedded transcript is not empty, the transcript is
  written to \<open>downloads/<title>_transcript.txt\<close> and nothing is downloaded or
  transcribed. The source reads \<open>entry.enclosures\<close> on line 49, before it looks at the
  transcript. A text-only item (a title and a description, no link and no enclosure) has the
  embedded transcript \<open>hello\<close>; processing it raises \<open>AttributeError\<close>, its transcript file
  is not written, and the loop ends before the next episode. An item with an embedded
  transcript and a title of 250 characters raises \<open>OSError\<close> when the operating system
  refuses the file name; the title is sanitized for spaces and slashes only.
\<close>

theorem text_only_item_aborts:
  "transcript_text text_only_item = Inr ''hello''
   \<and> process_entry failing_whisper text_only_item empty_world
        = Raised (AttributeError ''enclosures'') empty_world
   \<and> files empty_world ''downloads/Notes_transcript.txt'' = None
   \<and> for_entries failing_whisper [text_only_item, episode_with_text] empty_world
        = Raised (AttributeError ''enclosures'') empty_world
   \<and> transcript_text long_title_item = Inr ''hello''
   \<and> length (transcript_path (replicate 250 CHR ''a'')) = 275
   \<and> process_entry failing_whisper long_title_item empty_world
        = Raised (OSError ''File name too long'') empty_world"
proof -
  have a: "transcript_text text_only_item = Inr ''hello''"
    by (simp add: transcript_text_def text_only_item_def)
  have b: "process_entry failing_whisper text_only_item empty_world
        = Raised (AttributeError ''enclosures'') empty_world"
    by (simp add: process_entry_def sanitized_title_def audio_url_def text_only_item_def)
  have c: "files empty_world ''downloads/Notes_transcript.txt'' = None"
    by (simp add: empty_world_def)
  have d: "for_entries failing_whisper [text_only_item, episode_with_text] empty_world
        = Raised (AttributeError ''enclosures'') empty_world"
    using b by simp
  have e: "transcript_text long_title_item = Inr ''hello''"
    by (simp add: transcript_text_def long_title_item_def)
  have p: "transcript_path (replicate 250 CHR ''a'')
             = ''downloads/'' @ replicate 250 CHR ''a'' @ ''_transcript.txt''"
    by (rule transcript_path_eq) simp
  then have f: "length (transcript_path (replicate 250 CHR ''a'')) = 275" by simp
  have s: "sanitized_title long_title_item = Inr (replicate 250 CHR ''a'')"
    by (simp add: sanitized_title_def replace_def long_title_item_def)
  have u: "audio_url long_title_item = Inr None"
    by (simp add: audio_url_def long_title_item_def)
  have o: "open_for_writing failing_whisper empty_world (transcript_path (replicate 250 CHR ''a''))
             = Some ''File name too long''"
    using f by (simp add: failing_whisper_def)
  have g: "process_entry failing_whisper long_title_item empty_world
        = Raised (OSError ''File name too long'') empty_world"
    using e s u o by (simp add: process_entry_def write_file_def)
  from a b c d e f g show ?thesis by blast
qed

section \<open>A failed transcription does not stop the batch\<close>

text \<open>
  Claim C2. For every batch and every episode in it that reaches the transcription of its
  downloaded audio (the episodes before it have been processed, its title \<open>t\<close> and audio
  URL have been read, its audio has been downloaded and saved), if the speech-to-text
  collaborator fails with message \<open>m\<close>, then no exception leaves the processing of the
  episode; the last line printed reports the failure with \<open>m\<close>, the outcome
  \<open>TranscriptionFailed\<close>; the audio file holds the downloaded bytes; and the loop goes on
  with the episodes after it.
\<close>

theorem transcription_failure_contained:
  assumes "for_entries c before w0 = Returned () w"
      and "sanitized_title e = Inr t"
      and "transcript_text e = Inr []" and "audio_url e = Inr (Some u)" and "u \<noteq> []"
      and "download_audio c t u w = Returned () w1"
      and "whisper_create c w1 (audio_path t) = Inl m"
  shows "\<exists>w' audio. process_entry c e w = Returned () w'
           \<and> last (console w') = WhisperError t (CollaboratorError m)
           \<and> outcome_of_line (last (console w')) = Some (TranscriptionFailed (CollaboratorError m))
           \<and> requests_get c (print_line (DownloadingAudio t) w) u = Inr audio
           \<and> files w' (audio_path t) = Some (Bytes audio)
           \<and> for_entries c (before @ e # rest) w0 = for_entries c rest w'"
proof -
  let ?w = "print_line (WhisperError t (CollaboratorError m))
              (record_call (WhisperCreate (audio_path t)) w1)"
  have p: "process_entry c e w = Returned () ?w" using assms(2-7) by (rule failed_transcription_run)
  from download_audio_Returned [OF assms(6)] obtain audio where
    a: "requests_get c (print_line (DownloadingAudio t) w) u = Inr audio"
    and f1: "files w1 = (files w)(audio_path t \<mapsto> Bytes audio)" by blast
  from f1 have f: "files ?w (audio_path t) = Some (Bytes audio)"
    by (simp add: print_line_def record_call_def)
  have l: "last (console ?w) = WhisperError t (CollaboratorError m)"
    by (simp add: print_line_def)
  have "for_entries c (before @ e # rest) w0 = for_entries c rest ?w"
    using assms(1) p by (simp add: for_entries_append)
  with p a f l show ?thesis by auto
qed

theorem transcription_failure_contained_witness:
  "for_entries failing_whisper [episode_bare] empty_world = Returned () bare_done
   \<and> sanitized_title episode_with_audio = Inr ''Ep_2''
   \<and> transcript_text episode_with_audio = Inr []
   \<and> audio_url episode_with_audio = Inr (Some ''http://x/b.mp3'') \<and> ''http://x/b.mp3'' \<noteq> []
   \<and> download_audio failing_whisper ''Ep_2'' ''http://x/b.mp3'' bare_done
        = Returned () (audio_downloaded bare_done)
   \<and> whisper_create failing_whisper (audio_downloaded bare_done) (audio_path ''Ep_2'')
        = Inl ''quota exceeded''
   \<and> (\<exists>w' audio. process_entry failing_whisper episode_with_audio bare_done = Returned () w'
         \<and> last (console w') = WhisperError ''Ep_2'' (CollaboratorError ''quota exceeded'')
         \<and> files w' (audio_path ''Ep_2'') = Some (Bytes audio)
         \<and> for_entries failing_whisper ([episode_bare] @ episode_with_audio # [episode_with_text]) empty_world
              = for_entries failing_whisper [episode_with_text] w')
   \<and> console (world_of (for_entries failing_whisper
        [episode_bare, episode_with_audio, episode_with_text] empty_world))
      = [NoAudioFound ''Ep_3'', DownloadingAudio ''Ep_2'', SavedTo ''downloads/Ep_2.mp3'',
         WhisperError ''Ep_2'' (CollaboratorError ''quota exceeded''),
         TranscriptScraped ''downloads/Ep_1-2_transcript.txt'']
   \<and> files (world_of (for_entries failing_whisper
        [episode_bare, episode_with_audio, episode_with_text] empty_world)) ''downloads/Ep_2.mp3''
      = Some (Bytes ''mp3-bytes'')"
proof -
  have c: "''http://x/b.mp3'' \<noteq> []" by simp
  from transcription_failure_contained [OF ex_bare ex_title_audio ex_text_audio ex_audio_url c
    ex_download ex_whisper, of "[episode_with_text]"]
  have e: "\<exists>w' audio. process_entry failing_whisper episode_with_audio bare_done = Returned () w'
         \<and> last (console w') = WhisperError ''Ep_2'' (CollaboratorError ''quota exceeded'')
         \<and> files w' (audio_path ''Ep_2'') = Some (Bytes audio)
         \<and> for_entries failing_whisper ([episode_bare] @ episode_with_audio # [episode_with_text]) empty_world
              = for_entries failing_whisper [episode_with_text] w'"
    by blast
  have f: "console (world_of (for_entries failing_whisper
        [episode_bare, episode_with_audio, episode_with_text] empty_world))
      = [NoAudioFound ''Ep_3'', DownloadingAudio ''Ep_2'', SavedTo ''downloads/Ep_2.mp3'',
         WhisperError ''Ep_2'' (CollaboratorError ''quota exceeded''),
         TranscriptScraped ''downloads/Ep_1-2_transcript.txt'']"
    by (simp add: run_defs example_defs)
  have g: "files (world_of (for_entries failing_whisper
        [episode_bare, episode_with_audio, episode_with_text] empty_world)) ''downloads/Ep_2.mp3''
      = Some (Bytes ''mp3-bytes'')"
    by (simp add: run_defs example_defs)
  from ex_bare ex_title_audio ex_text_audio ex_audio_url c ex_download [of bare_done]
    ex_whisper [of "audio_downloaded bare_done" "audio_path ''Ep_2''"] e f g
  show ?thesis by blast
qed

section \<open>The resolver: Apple Podcasts pages\<close>

text \<open>
  Claim C3. For every locator that contains \<open>podcasts.apple.com\<close> and in which \<open>id\<close>
  followed by at least one digit occurs, the resolver returns exactly
  \<open>https://podcasts.apple.com/rss/podcast/<digits>.xml\<close> and prints nothing, where
  \<open><digits>\<close> is the whole run of digits that follows the leftmost such \<open>id\<close>: the
  locator splits into what precedes that \<open>id\<close>, the \<open>id\<close>, the digits, and a rest that
  does not start with a digit.
\<close>

theorem resolve_apple_id:
  assumes "sublist ''podcasts.apple.com'' s" and "\<exists>k. id_digits_at s k"
  shows "\<exists>k ds. id_digits_at s k \<and> (\<forall>j<k. \<not> id_digits_at s j)
           \<and> ds = takeWhile is_digit (drop (k + 2) s) \<and> ds \<noteq> []
           \<and> s = take k s @ ''id'' @ ds @ dropWhile is_digit (drop (k + 2) s)
           \<and> resolve_feed_url s
               = ([], Some (''https://podcasts.apple.com/rss/podcast/'' @ ds @ ''.xml''))"
proof -
  from assms(2) obtain k where k: "id_digits_at s k" and least: "\<forall>j<k. \<not> id_digits_at s j"
    using exists_least_iff [of "id_digits_at s"] by blast
  let ?ds = "takeWhile is_digit (drop (k + 2) s)"
  have "re_search_id_digits s = Some ?ds" using k least by (rule re_search_first)
  with assms(1) have "resolve_feed_url s
      = ([], Some (''https://podcasts.apple.com/rss/podcast/'' @ ?ds @ ''.xml''))"
    by (simp add: resolve_feed_url_def contains_iff_sublist)
  with k least id_digits_at_split [OF k] show ?thesis by blast
qed

text \<open>
  The scenario of the specification: the page of show \<open>123456789\<close>. The theorem gives a
  leftmost position and its digits; the leftmost position is 42, so the digits are
  \<open>123456789\<close>.
\<close>

theorem resolve_apple_id_witness:
  "sublist ''podcasts.apple.com'' ''https://podcasts.apple.com/us/podcast/foo/id123456789''
   \<and> id_digits_at ''https://podcasts.apple.com/us/podcast/foo/id123456789'' 42
   \<and> (\<exists>k ds. id_digits_at ''https://podcasts.apple.com/us/podcast/foo/id123456789'' k
         \<and> ds = takeWhile is_digit (drop (k + 2) ''https://podcasts.apple.com/us/podcast/foo/id123456789'')
         \<and> resolve_feed_url ''https://podcasts.apple.com/us/podcast/foo/id123456789''
              = ([], Some (''https://podcasts.apple.com/rss/podcast/'' @ ds @ ''.xml'')))
   \<and> resolve_feed_url ''https://podcasts.apple.com/us/podcast/foo/id123456789''
        = ([], Some ''https://podcasts.apple.com/rss/podcast/123456789.xml'')"
proof -
  let ?s = "''https://podcasts.apple.com/us/podcast/foo/id123456789''"
  have a: "sublist ''podcasts.apple.com'' ?s"
    unfolding contains_iff_sublist [symmetric] by simp
  have b: "id_digits_at ?s 42"
    by (simp add: id_digits_at_def is_digit_def)
  then have "\<exists>k. id_digits_at ?s k" ..
  with a have "\<exists>k ds. id_digits_at ?s k \<and> (\<forall>j<k. \<not> id_digits_at ?s j)
           \<and> ds = takeWhile is_digit (drop (k + 2) ?s) \<and> ds \<noteq> []
           \<and> ?s = take k ?s @ ''id'' @ ds @ dropWhile is_digit (drop (k + 2) ?s)
           \<and> resolve_feed_url ?s
               = ([], Some (''https://podcasts.apple.com/rss/podcast/'' @ ds @ ''.xml''))"
    by (rule resolve_apple_id)
  then have c: "\<exists>k ds. id_digits_at ?s k
         \<and> ds = takeWhile is_digit (drop (k + 2) ?s)
         \<and> resolve_feed_url ?s
              = ([], Some (''https://podcasts.apple.com/rss/podcast/'' @ ds @ ''.xml''))"
    by blast
  have d: "resolve_feed_url ?s = ([], Some ''https://podcasts.apple.com/rss/podcast/123456789.xml'')"
    by (simp add: resolve_feed_url_def is_digit_def)
  from a b c d show ?thesis by blast
qed

section \<open>The resolver: direct feed URLs\<close>

text \<open>
  Claim C4, as stated: every locator that ends with \<open>.xml\<close> or contains \<open>rss\<close> is
  returned unchanged. The Apple Podcasts test comes first in the source, so a locator
  that also contains \<open>podcasts.apple.com\<close> never reaches this branch. The URL that the
  resolver itself builds for show \<open>123456789\<close> ends with \<open>.xml\<close> and contains \<open>rss\<close>, and
  the resolver answers \<open>None\<close> for it.
\<close>

theorem resolve_xml_rss_counterexample:
  "suffix ''.xml'' ''https://podcasts.apple.com/rss/podcast/123456789.xml''
   \<and> sublist ''rss'' ''https://podcasts.apple.com/rss/podcast/123456789.xml''
   \<and> resolve_feed_url ''https://podcasts.apple.com/rss/podcast/123456789.xml''
       = ([CouldNotExtractAppleId], None)
   \<and> snd (resolve_feed_url ''https://podcasts.apple.com/rss/podcast/123456789.xml'')
       \<noteq> Some ''https://podcasts.apple.com/rss/podcast/123456789.xml''"
proof -
  have "suffix ''.xml'' ''https://podcasts.apple.com/rss/podcast/123456789.xml''"
    unfolding endswith_iff_suffix [symmetric] by (simp add: endswith_def)
  moreover have "sublist ''rss'' ''https://podcasts.apple.com/rss/podcast/123456789.xml''"
    unfolding contains_iff_sublist [symmetric] by simp
  moreover have "resolve_feed_url ''https://podcasts.apple.com/rss/podcast/123456789.xml''
       = ([CouldNotExtractAppleId], None)"
    by (simp add: resolve_feed_url_def)
  ultimately show ?thesis by simp
qed

text \<open>
  Claim C4, amended: a locator that ends with \<open>.xml\<close> or contains \<open>rss\<close> is returned
  unchanged (and nothing is printed) if it does not contain \<open>podcasts.apple.com\<close>; if it
  does contain \<open>podcasts.apple.com\<close>, the value returned is never the locator itself.
\<close>

theorem resolve_direct_feed:
  assumes "suffix ''.xml'' s \<or> sublist ''rss'' s"
  shows "(\<not> sublist ''podcasts.apple.com'' s \<longrightarrow> resolve_feed_url s = ([], Some s))
       \<and> (sublist ''podcasts.apple.com'' s \<longrightarrow> snd (resolve_feed_url s) \<noteq> Some s)"
  using assms apple_not_fixed [of s]
  by (auto simp: resolve_feed_url_def contains_iff_sublist endswith_iff_suffix)

theorem resolve_direct_feed_witness:
  "(suffix ''.xml'' ''https://example.com/feed.xml'' \<or> sublist ''rss'' ''https://example.com/feed.xml'')
   \<and> \<not> sublist ''podcasts.apple.com'' ''https://example.com/feed.xml''
   \<and> resolve_feed_url ''https://example.com/feed.xml'' = ([], Some ''https://example.com/feed.xml'')"
proof -
  have h: "suffix ''.xml'' ''https://example.com/feed.xml''"
    unfolding endswith_iff_suffix [symmetric] by (simp add: endswith_def)
  have n: "\<not> sublist ''podcasts.apple.com'' ''https://example.com/feed.xml''"
    unfolding contains_iff_sublist [symmetric] by simp
  from h have "suffix ''.xml'' ''https://example.com/feed.xml'' \<or> sublist ''rss'' ''https://example.com/feed.xml''" ..
  from resolve_direct_feed [OF this] n h show ?thesis by blast
qed

section \<open>The resolver: locators it does not resolve\<close>

text \<open>
  Claim C5. A locator that contains none of \<open>podcasts.apple.com\<close>, a final \<open>.xml\<close> and
  \<open>rss\<close>, and a locator that contains \<open>podcasts.apple.com\<close> but nowhere \<open>id\<close> followed
  by a digit, is answered with \<open>None\<close>. The only effect is the one diagnostic line; the
  resolver has no exceptional result.
\<close>

theorem resolve_absent:
  assumes "(\<not> sublist ''podcasts.apple.com'' s \<and> \<not> suffix ''.xml'' s \<and> \<not> sublist ''rss'' s)
         \<or> (sublist ''podcasts.apple.com'' s \<and> (\<forall>k. \<not> id_digits_at s k))"
  shows "resolve_feed_url s
           = (if sublist ''podcasts.apple.com'' s then [CouldNotExtractAppleId]
              else [UnsupportedUrlFormat], None)"
  using assms
  by (auto simp: resolve_feed_url_def contains_iff_sublist endswith_iff_suffix
      re_search_None [symmetric])

theorem resolve_absent_witness:
  "\<not> sublist ''podcasts.apple.com'' ''https://example.com/show''
   \<and> \<not> suffix ''.xml'' ''https://example.com/show''
   \<and> \<not> sublist ''rss'' ''https://example.com/show''
   \<and> resolve_feed_url ''https://example.com/show'' = ([UnsupportedUrlFormat], None)
   \<and> sublist ''podcasts.apple.com'' ''https://podcasts.apple.com/us/podcast/foo''
   \<and> (\<forall>k. \<not> id_digits_at ''https://podcasts.apple.com/us/podcast/foo'' k)
   \<and> resolve_feed_url ''https://podcasts.apple.com/us/podcast/foo'' = ([CouldNotExtractAppleId], None)"
proof -
  have a: "\<not> sublist ''podcasts.apple.com'' ''https://example.com/show''"
    unfolding contains_iff_sublist [symmetric] by simp
  have b: "\<not> suffix ''.xml'' ''https://example.com/show''"
    unfolding endswith_iff_suffix [symmetric] by (simp add: endswith_def)
  have c: "\<not> sublist ''rss'' ''https://example.com/show''"
    unfolding contains_iff_sublist [symmetric] by simp
  have d: "sublist ''podcasts.apple.com'' ''https://podcasts.apple.com/us/podcast/foo''"
    unfolding contains_iff_sublist [symmetric] by simp
  have e: "\<forall>k. \<not> id_digits_at ''https://podcasts.apple.com/us/podcast/foo'' k"
    unfolding re_search_None [symmetric] by simp
  have "resolve_feed_url ''https://example.com/show'' = ([UnsupportedUrlFormat], None)"
    using resolve_absent [of "''https://example.com/show''"] a b c by simp
  moreover have "resolve_feed_url ''https://podcasts.apple.com/us/podcast/foo'' = ([CouldNotExtractAppleId], None)"
    using resolve_absent [of "''https://podcasts.apple.com/us/podcast/foo''"] d e by simp
  ultimately show ?thesis using a b c d e by blast
qed

section \<open>Where the embedded transcript comes from\<close>

text \<open>
  Claim C6. For every feed entry, the text the downloader takes as the embedded transcript
  is the entry's content value if that is not empty, otherwise the entry's summary if that
  is not empty, otherwise nothing: the empty string, which the downloader treats as no
  transcript. An entry is one the feed parser builds, whose content list, when there is
  one, has an item; the source indexes the list at 0.
\<close>

theorem embedded_transcript_rule:
  assumes "content e \<noteq> Some []"
  shows "transcript_text e = Inr (case spec_embedded_transcript e of None \<Rightarrow> [] | Some t \<Rightarrow> t)
       \<and> spec_embedded_transcript e \<noteq> Some []"
  using assms
  by (auto simp: transcript_text_def spec_embedded_transcript_def spec_content_value_def Let_def
      split: option.splits list.splits)

text \<open>
  The third example episode has an empty content value and the summary \<open>hello\<close>: the
  summary is taken. The second has an empty summary and no content: nothing is taken.
\<close>

theorem embedded_transcript_rule_witness:
  "content episode_with_text \<noteq> Some []
   \<and> spec_embedded_transcript episode_with_text = Some ''hello''
   \<and> transcript_text episode_with_text = Inr ''hello''
   \<and> content episode_bare \<noteq> Some []
   \<and> spec_embedded_transcript episode_bare = None
   \<and> transcript_text episode_bare = Inr []"
proof -
  have a: "content episode_with_text \<noteq> Some []" by (simp add: episode_with_text_def)
  have b: "spec_embedded_transcript episode_with_text = Some ''hello''"
    by (simp add: spec_embedded_transcript_def spec_content_value_def episode_with_text_def)
  have c: "content episode_bare \<noteq> Some []" by (simp add: episode_bare_def)
  have d: "spec_embedded_transcript episode_bare = None"
    by (simp add: spec_embedded_transcript_def spec_content_value_def episode_bare_def)
  from embedded_transcript_rule [OF a] b
  have e: "transcript_text episode_with_text = Inr ''hello''" by simp
  from embedded_transcript_rule [OF c] d
  have f: "transcript_text episode_bare = Inr []" by simp
  from a b c d e f show ?thesis by blast
qed

section \<open>Episodes with neither transcript nor audio\<close>

text \<open>
  Claim C7: for every episode with no embedded transcript and no audio URL, no file is
  written and the outcome is \<open>AudioMissing\<close>. The source guards the empty enclosure list
  (\<open>if entry.enclosures else None\<close>) and prints that no audio was found, but the guard
  itself reads \<open>entry.enclosures\<close>. An item that is only a title has no transcript and no
  audio URL; processing it raises \<open>AttributeError\<close>, nothing is printed, and the loop ends
  before the next episode.
\<close>

theorem title_only_item_aborts:
  "transcript_text title_only_item = Inr []
   \<and> enclosures title_only_item = None
   \<and> process_entry failing_whisper title_only_item empty_world
        = Raised (AttributeError ''enclosures'') empty_world
   \<and> console empty_world = []
   \<and> for_entries failing_whisper [title_only_item, episode_bare] empty_world
        = Raised (AttributeError ''enclosures'') empty_world"
proof -
  have a: "transcript_text title_only_item = Inr []"
    by (simp add: transcript_text_def title_only_item_def)
  have b: "enclosures title_only_item = None" by (simp add: title_only_item_def)
  have c: "process_entry failing_whisper title_only_item empty_world
        = Raised (AttributeError ''enclosures'') empty_world"
    by (simp add: process_entry_def sanitized_title_def audio_url_def title_only_item_def)
  have d: "console empty_world = []" by (simp add: empty_world_def)
  have e: "for_entries failing_whisper [title_only_item, episode_bare] empty_world
        = Raised (AttributeError ''enclosures'') empty_world"
    using c by simp
  from a b c d e show ?thesis by blast
qed

section \<open>The limit\<close>




section \<open>What the caller gets\<close>

text \<open>
  Claim C9, as stated: a successful run returns the sequence of (episode, outcome) pairs,
  of length \<open>N\<close>. The function has no \<open>return\<close>: the run over the first three example
  episodes returns \<open>None\<close>, not a sequence of three pairs.
\<close>

theorem returns_none_counterexample:
  "length (slice_to (feedparser_parse failing_whisper empty_world ''feed'') 3) = 3
   \<and> returned_value (download_episodes_from_rss failing_whisper ''feed'' None empty_world) = Some PyNone
   \<and> \<not> (\<exists>pairs. returned_value (download_episodes_from_rss failing_whisper ''feed'' None empty_world)
                   = Some (PySeq pairs) \<and> length pairs = 3)"
proof -
  have "returned_value (download_episodes_from_rss failing_whisper ''feed'' None empty_world) = Some PyNone"
    by (simp add: run_defs example_defs)
  then show ?thesis by (simp add: failing_whisper_def slice_to_def)
qed

text \<open>
  Claim C9, amended: every run that ends normally returns \<open>None\<close> to its caller. The
  outcomes are reported on the console instead: among the lines the run prints there is
  exactly one outcome line for each processed episode, in the order of the episodes,
  whatever the kinds of the outcomes.
\<close>

theorem outcomes_reported_not_returned:
  assumes "download_episodes_from_rss c url limit_arg w = Returned v w'"
  shows "v = PyNone
       \<and> (\<exists>printed. console w' = console w @ printed
            \<and> list_all2 reports_on
                 (slice_to (feedparser_parse c w url) (case limit_arg of None \<Rightarrow> 3 | Some l \<Rightarrow> l))
                 (outcome_lines printed)
            \<and> length (outcome_lines printed)
                 = length (slice_to (feedparser_parse c w url) (case limit_arg of None \<Rightarrow> 3 | Some l \<Rightarrow> l)))"
proof -
  let ?eps = "slice_to (feedparser_parse c w url) (case limit_arg of None \<Rightarrow> 3 | Some l \<Rightarrow> l)"
  let ?w1 = "makedirs downloads_dir (record_call (FeedParse url) w)"
  from assms obtain x where r: "for_entries c ?eps ?w1 = Returned x w'" and v: "v = PyNone"
    by (auto simp: download_episodes_from_rss_def Let_def split: run.splits)
  from for_entries_reports [OF r] obtain printed where
    "console w' = console ?w1 @ printed" and l: "list_all2 reports_on ?eps (outcome_lines printed)"
    by blast
  then have "console w' = console w @ printed" by (simp add: makedirs_def record_call_def)
  moreover from l have "length (outcome_lines printed) = length ?eps"
    by (simp add: list_all2_lengthD)
  ultimately show ?thesis using v l by blast
qed

theorem outcomes_reported_not_returned_witness:
  "download_episodes_from_rss failing_whisper ''feed'' None empty_world
     = Returned PyNone (world_of (download_episodes_from_rss failing_whisper ''feed'' None empty_world))
   \<and> (\<exists>printed. console (world_of (download_episodes_from_rss failing_whisper ''feed'' None empty_world))
          = console empty_world @ printed
        \<and> list_all2 reports_on [episode_with_audio, episode_bare, episode_with_text] (outcome_lines printed)
        \<and> length (outcome_lines printed) = 3)
   \<and> outcome_lines (console (world_of (download_episodes_from_rss failing_whisper ''feed'' None empty_world)))
       = [WhisperError ''Ep_2'' (CollaboratorError ''quota exceeded''), NoAudioFound ''Ep_3'',
          TranscriptScraped ''downloads/Ep_1-2_transcript.txt'']"
proof -
  have "returned_value (download_episodes_from_rss failing_whisper ''feed'' None empty_world) = Some PyNone"
    by (simp add: run_defs example_defs)
  then have a: "download_episodes_from_rss failing_whisper ''feed'' None empty_world
     = Returned PyNone (world_of (download_episodes_from_rss failing_whisper ''feed'' None empty_world))"
    by (rule run_eq)
  have s: "slice_to (feedparser_parse failing_whisper empty_world ''feed'') (case None of None \<Rightarrow> 3 | Some l \<Rightarrow> l)
      = [episode_with_audio, episode_bare, episode_with_text]"
    by (simp add: failing_whisper_def slice_to_def)
  from outcomes_reported_not_returned [OF a]
  have b: "\<exists>printed. console (world_of (download_episodes_from_rss failing_whisper ''feed'' None empty_world))
          = console empty_world @ printed
        \<and> list_all2 reports_on [episode_with_audio, episode_bare, episode_with_text] (outcome_lines printed)
        \<and> length (outcome_lines printed) = 3"
    unfolding s by (auto simp: numeral_3_eq_3)
  have c: "outcome_lines (console (world_of (download_episodes_from_rss failing_whisper ''feed'' None empty_world)))
       = [WhisperError ''Ep_2'' (CollaboratorError ''quota exceeded''), NoAudioFound ''Ep_3'',
          TranscriptScraped ''downloads/Ep_1-2_transcript.txt'']"
    by (simp add: run_defs example_defs outcome_lines_def)
  from a b c show ?thesis by blast
qed

section \<open>A failed transcription writes no transcript\<close>

text \<open>
  Claim C10. For every episode that reaches the transcription of its downloaded audio (its
  title \<open>t\<close> and audio URL have been read, its audio has been downloaded and saved), if
  the speech-to-text collaborator fails, then processing the episode leaves the transcript
  path as it was: the only file that differs from before is the audio file.
\<close>

theorem failed_transcription_no_transcript:
  assumes "sanitized_title e = Inr t"
      and "transcript_text e = Inr []" and "audio_url e = Inr (Some u)" and "u \<noteq> []"
      and "download_audio c t u w = Returned () w1"
      and "whisper_create c w1 (audio_path t) = Inl m"
  shows "\<exists>w'. process_entry c e w = Returned () w'
           \<and> files w' (transcript_path t) = files w (transcript_path t)
           \<and> (\<forall>p. p \<noteq> audio_path t \<longrightarrow> files w' p = files w p)"
proof -
  let ?w = "print_line (WhisperError t (CollaboratorError m))
              (record_call (WhisperCreate (audio_path t)) w1)"
  have p: "process_entry c e w = Returned () ?w" using assms by (rule failed_transcription_run)
  from download_audio_Returned [OF assms(5)] obtain audio where
    "files w1 = (files w)(audio_path t \<mapsto> Bytes audio)" by blast
  then have f: "files ?w = (files w)(audio_path t \<mapsto> Bytes audio)"
    by (simp add: print_line_def record_call_def)
  then have "\<forall>p. p \<noteq> audio_path t \<longrightarrow> files ?w p = files w p" by simp
  moreover from f have "files ?w (transcript_path t) = files w (transcript_path t)"
    using audio_path_neq_transcript_path [of t] by simp
  ultimately show ?thesis using p by blast
qed

theorem failed_transcription_no_transcript_witness:
  "sanitized_title episode_with_audio = Inr ''Ep_2''
   \<and> transcript_text episode_with_audio = Inr []
   \<and> audio_url episode_with_audio = Inr (Some ''http://x/b.mp3'')
   \<and> ''http://x/b.mp3'' \<noteq> []
   \<and> download_audio failing_whisper ''Ep_2'' ''http://x/b.mp3'' empty_world
        = Returned () (audio_downloaded empty_world)
   \<and> whisper_create failing_whisper (audio_downloaded empty_world) (audio_path ''Ep_2'') = Inl ''quota exceeded''
   \<and> (\<exists>w'. process_entry failing_whisper episode_with_audio empty_world = Returned () w'
         \<and> files w' (transcript_path ''Ep_2'') = files empty_world (transcript_path ''Ep_2''))
   \<and> transcript_path ''Ep_2'' = ''downloads/Ep_2_transcript.txt''
   \<and> files (world_of (process_entry failing_whisper episode_with_audio empty_world))
        ''downloads/Ep_2_transcript.txt'' = None"
proof -
  have c: "''http://x/b.mp3'' \<noteq> []" by simp
  have t: "transcript_path ''Ep_2'' = ''downloads/Ep_2_transcript.txt''"
    by (simp add: transcript_path_eq)
  from failed_transcription_no_transcript [OF ex_title_audio ex_text_audio ex_audio_url c
    ex_download ex_whisper]
  have e: "\<exists>w'. process_entry failing_whisper episode_with_audio empty_world = Returned () w'
         \<and> files w' (transcript_path ''Ep_2'') = files empty_world (transcript_path ''Ep_2'')"
    by blast
  then have f: "files (world_of (process_entry failing_whisper episode_with_audio empty_world))
        ''downloads/Ep_2_transcript.txt'' = None"
    using t by (auto simp: empty_world_def)
  from ex_title_audio ex_text_audio ex_audio_url c ex_download [of empty_world]
    ex_whisper [of "audio_downloaded empty_world" "audio_path ''Ep_2''"] e t f
  show ?thesis by blast
qed

end
